theory Spec2Isabelle
  imports Complex_Main "HOL-Library.Sublist"
begin

section \<open>Numeric arrays\<close>

text \<open>
  A NumPy float64 array is a list of samples.  A sample is a finite number or one of the
  three non-finite values; finite arithmetic is idealised to the reals (no rounding, no
  overflow).  Arrays that the code has already sanitised are plain \<open>real list\<close>s.
\<close>

datatype float64 = Fin real | NaN | PosInf | NegInf

fun isfinite :: "float64 \<Rightarrow> bool" where
  "isfinite (Fin _) = True"
| "isfinite _ = False"

fun fin_val :: "float64 \<Rightarrow> real" where
  "fin_val (Fin r) = r"
| "fin_val _ = 0"

text \<open>\<^verbatim>\<open>np.where(np.isfinite(data), data, 0.0)\<close>\<close>

definition where_finite :: "float64 list \<Rightarrow> float64 list" where
  "where_finite d = map (\<lambda>v. if isfinite v then v else Fin 0) d"

text \<open>\<^verbatim>\<open>np.median\<close>: middle element of the sorted array, or the mean of the two middle ones.\<close>

definition np_median :: "real list \<Rightarrow> real" where
  "np_median xs =
     (let s = sort xs; n = length xs
      in if odd n then s ! (n div 2) else (s ! (n div 2 - 1) + s ! (n div 2)) / 2)"

section \<open>Artifact detector (\<^verbatim>\<open>signal_processing.detect_artifacts\<close>)\<close>

definition mad_to_std :: real where
  "mad_to_std = 1.4826"

definition detect_artifacts :: "real list \<Rightarrow> real \<Rightarrow> bool list" where
  "detect_artifacts control_signal threshold =
     (if length control_signal < 2 then map (\<lambda>_. False) control_signal
      else
        let median_val = np_median control_signal;
            mad = np_median (map (\<lambda>v. \<bar>v - median_val\<bar>) control_signal)
        in map (\<lambda>v. \<bar>v - median_val\<bar> > threshold * mad * mad_to_std) control_signal)"

section \<open>Denoiser (\<^verbatim>\<open>signal_processing.advanced_denoise_signal\<close>)\<close>

datatype py_error = IndexError | ValueError | TypeError | ZeroDivisionError | RecursionError

text \<open>\<^verbatim>\<open>np.where(mask)[0]\<close>: the positions at which a boolean array is true.\<close>

definition np_where :: "bool list \<Rightarrow> nat list" where
  "np_where msk = filter (\<lambda>i. msk ! i) [0..<length msk]"

text \<open>\<^verbatim>\<open>a[idx]\<close> with an index array: raises on any index out of range.\<close>

definition take_indices :: "'a list \<Rightarrow> nat list \<Rightarrow> py_error + 'a list" where
  "take_indices a idx =
     (if \<forall>i\<in>set idx. i < length a then Inr (map (\<lambda>i. a ! i) idx) else Inl IndexError)"

text \<open>\<^verbatim>\<open>a[idx] = vals\<close> with an index array and one value per index.\<close>

definition put_indices :: "'a list \<Rightarrow> nat list \<Rightarrow> 'a list \<Rightarrow> py_error + 'a list" where
  "put_indices a idx vals =
     (if \<not> (\<forall>i\<in>set idx. i < length a) then Inl IndexError
      else if length vals \<noteq> length idx then Inl ValueError
      else Inr (fold (\<lambda>(i, v) b. b[i := v]) (zip idx vals) a))"

text \<open>
  The SciPy routines are outside the repository and are parameters of the model:
  \<open>interp1d x y\<close> builds the linear interpolant through the knots (or raises), and
  \<open>linregress x y\<close> returns slope and intercept (or raises).
\<close>

type_synonym interp1d_fn = "real list \<Rightarrow> real list \<Rightarrow> py_error + (real \<Rightarrow> real)"
type_synonym linregress_fn = "real list \<Rightarrow> real list \<Rightarrow> py_error + (real \<times> real)"

definition interp_fill ::
  "(real \<Rightarrow> real) \<Rightarrow> real list \<Rightarrow> real list \<Rightarrow> nat list \<Rightarrow> py_error + real list" where
  \<comment> \<open>\<^verbatim>\<open>denoised_signal[artifact_indices] = interp_func(time[artifact_indices])\<close>\<close>
  "interp_fill interp_func denoised_signal time artifact_indices =
     (case take_indices time artifact_indices of
        Inl e \<Rightarrow> Inl e
      | Inr ts \<Rightarrow> put_indices denoised_signal artifact_indices (map interp_func ts))"

definition regress_fill ::
  "linregress_fn \<Rightarrow> (real \<Rightarrow> real) \<Rightarrow> real list \<Rightarrow> real list \<Rightarrow> real list \<Rightarrow>
   nat list \<Rightarrow> nat list \<Rightarrow> py_error + real list" where
  \<comment> \<open>the body of the \<^verbatim>\<open>try\<close> block of the aggressive mode\<close>
  "regress_fill linregress interp_func signal time control_signal valid_indices artifact_indices =
     (case take_indices control_signal valid_indices of
        Inl e \<Rightarrow> Inl e
      | Inr cv \<Rightarrow>
     (case take_indices signal valid_indices of
        Inl e \<Rightarrow> Inl e
      | Inr sv \<Rightarrow>
     (case linregress cv sv of
        Inl e \<Rightarrow> Inl e
      | Inr (slope, intercept) \<Rightarrow>
     (case take_indices control_signal artifact_indices of
        Inl e \<Rightarrow> Inl e
      | Inr ca \<Rightarrow>
     (case take_indices time artifact_indices of
        Inl e \<Rightarrow> Inl e
      | Inr ta \<Rightarrow>
          put_indices signal artifact_indices
            (map2 (\<lambda>p q. 0.7 * p + 0.3 * q)
               (map (\<lambda>c. slope * c + intercept) ca) (map interp_func ta)))))))"

definition advanced_denoise_signal ::
  "interp1d_fn \<Rightarrow> linregress_fn \<Rightarrow> real list \<Rightarrow> real list \<Rightarrow> bool list \<Rightarrow>
   real list option \<Rightarrow> bool \<Rightarrow> py_error + real list" where
  "advanced_denoise_signal interp1d linregress signal time artifact_mask control_signal
       aggressive_mode =
     (if \<not> list_ex (\<lambda>b. b) artifact_mask then Inr signal
      else
        let valid_indices = np_where (map Not artifact_mask)
        in if length valid_indices < 2 then Inr signal
        else
          case take_indices time valid_indices of
            Inl e \<Rightarrow> Inl e
          | Inr tv \<Rightarrow>
          (case take_indices signal valid_indices of
            Inl e \<Rightarrow> Inl e
          | Inr sv \<Rightarrow>
          (case interp1d tv sv of
            Inl e \<Rightarrow> Inl e
          | Inr interp_func \<Rightarrow>
              let artifact_indices = np_where artifact_mask
              in if aggressive_mode \<and> control_signal \<noteq> None \<and> length valid_indices > 10
                 then
                   (case regress_fill linregress interp_func signal time (the control_signal)
                           valid_indices artifact_indices of
                      Inr r \<Rightarrow> Inr r
                    | Inl _ \<Rightarrow> interp_fill interp_func signal time artifact_indices)
                 else interp_fill interp_func signal time artifact_indices)))"

section \<open>External numeric routines and the run-time environment\<close>

text \<open>
  The filter design (\<open>butter\<close>), the zero-phase filter (\<open>sosfiltfilt\<close>), the regression
  (\<open>linregress\<close>) and the polynomial fit (\<open>polyfit\<close>) come from SciPy and NumPy.  They are
  not code of the repository and are parameters of the model; every one of them may raise
  (\<open>Inl\<close>).  SciPy documents the result of \<open>sosfiltfilt\<close> as an array of the shape of its
  input: the parameter gives the output sample at each position, and the filter stage
  reads the array off over the positions of its input.  The samples may be non-finite.
  The padding length \<open>None\<close> stands for SciPy's default.

  Three facts of the running interpreter are parameters as well: whether the module
  \<^verbatim>\<open>gpu_processing\<close> could be imported (\<^verbatim>\<open>GPU_AVAILABLE\<close>), whether its accelerator object
  found a device (\<^verbatim>\<open>gpu_accel.gpu_available\<close>), and how many nested calls the interpreter
  still allows when the filter stage is entered (a call beyond them raises
  \<^verbatim>\<open>RecursionError\<close>).
\<close>

datatype cutoff = Scalar real | Band "real list"

record 'sos numlib =
  GPU_AVAILABLE :: bool
  gpu_accel_available :: bool
  recursion_limit :: nat
  butter :: "int \<Rightarrow> cutoff \<Rightarrow> string \<Rightarrow> py_error + 'sos"
  sosfiltfilt :: "'sos \<Rightarrow> real list \<Rightarrow> int option \<Rightarrow> py_error + (nat \<Rightarrow> float64)"
  linregress :: "real list \<Rightarrow> real list \<Rightarrow> py_error + (real \<times> real)"
  polyfit :: "real list \<Rightarrow> real list \<Rightarrow> int \<Rightarrow> py_error + real list"

section \<open>Filter stage (\<^verbatim>\<open>signal_processing.butter_filter\<close>)\<close>

text \<open>\<^verbatim>\<open>int(x)\<close> on a float truncates toward zero.\<close>

definition py_int :: "real \<Rightarrow> int" where
  "py_int r = (if 0 \<le> r then \<lfloor>r\<rfloor> else \<lceil>r\<rceil>)"

definition cutoff_invalid :: "cutoff \<Rightarrow> real \<Rightarrow> bool" where
  "cutoff_invalid cutoff fs =
     (case cutoff of
        Band cs \<Rightarrow> list_ex (\<lambda>c. c \<le> 0) cs \<or> list_ex (\<lambda>c. c \<ge> fs / 2) cs
      | Scalar c \<Rightarrow> c \<le> 0 \<or> c \<ge> fs / 2)"

definition np_min :: "real list \<Rightarrow> real" where
  "np_min cs = fold min (tl cs) (hd cs)"

definition cpu_filter ::
  "'sos numlib \<Rightarrow> float64 list \<Rightarrow> cutoff \<Rightarrow> real \<Rightarrow> string \<Rightarrow> int \<Rightarrow> float64 list" where
  "cpu_filter L data cutoff fs btype order =
     (let nyq = 0.5 * fs;
          normal_cutoff =
            (case cutoff of
               Band cs \<Rightarrow> Band (map (\<lambda>c. c / nyq) cs)
             | Scalar c \<Rightarrow> Scalar (c / nyq))
      in case butter L order normal_cutoff btype of
           Inl _ \<Rightarrow> data
         | Inr sos \<Rightarrow>
             (case cutoff of
                Band [] \<Rightarrow> data  \<comment> \<open>\<^verbatim>\<open>np.min\<close> of an empty array raises; the outer handler returns \<^verbatim>\<open>data\<close>\<close>
              | _ \<Rightarrow>
                let min_cutoff = (case cutoff of Band cs \<Rightarrow> np_min cs | Scalar c \<Rightarrow> c);
                    padlen =
                      (if min_cutoff > 0
                       then min (int (length data) - 1) (max 1 (py_int (3 * fs / min_cutoff)))
                       else 0)
                in case sosfiltfilt L sos (map fin_val data) (Some padlen) of
                     Inl _ \<Rightarrow> data
                   | Inr out \<Rightarrow>
                       let filtered_data = map out [0..<length data]
                       in if \<not> list_all isfinite filtered_data then data else filtered_data))"

text \<open>
  The body of the \<^verbatim>\<open>try\<close> block of \<^verbatim>\<open>gpu_processing.gpu_butter_filter\<close>, taken when
  the accelerator has a device.  \<^verbatim>\<open>to_gpu\<close> and \<^verbatim>\<open>to_cpu\<close> catch their own exceptions
  and hand the samples on unchanged; the filter itself runs in SciPy with the default
  padding, and its result is returned without a check for non-finite samples.
\<close>

definition gpu_try ::
  "'sos numlib \<Rightarrow> float64 list \<Rightarrow> cutoff \<Rightarrow> real \<Rightarrow> string \<Rightarrow> int \<Rightarrow> py_error + float64 list" where
  "gpu_try L data cutoff fs btype order =
     (let nyq = 0.5 * fs;
          normal_cutoff =
            (case cutoff of
               Band cs \<Rightarrow> Band (map (\<lambda>c. c / nyq) cs)
             | Scalar c \<Rightarrow> Scalar (c / nyq))
      in case butter L order normal_cutoff btype of
           Inl e \<Rightarrow> Inl e
         | Inr sos \<Rightarrow>
             (case sosfiltfilt L sos (map fin_val data) None of
                Inl e \<Rightarrow> Inl e
              | Inr out \<Rightarrow> Inr (map out [0..<length data])))"

text \<open>
  \<^verbatim>\<open>signal_processing.butter_filter\<close> on an array and \<^verbatim>\<open>gpu_processing.gpu_butter_filter\<close>
  call each other: the filter stage hands a trace of more than 10 MB to the accelerated
  filter, which falls back to the filter stage when there is no device or when its own
  attempt raises.  The first argument is the number of nested calls the interpreter still
  allows; the call that exceeds it raises \<^verbatim>\<open>RecursionError\<close>, which the handler of the
  filter stage around the accelerated call catches like any other exception.
\<close>

fun butter_filter_depth ::
    "nat \<Rightarrow> 'sos numlib \<Rightarrow> float64 list \<Rightarrow> cutoff \<Rightarrow> real \<Rightarrow> string \<Rightarrow> int \<Rightarrow> float64 list"
  and gpu_butter_filter ::
    "nat \<Rightarrow> 'sos numlib \<Rightarrow> float64 list \<Rightarrow> cutoff \<Rightarrow> real \<Rightarrow> string \<Rightarrow> int \<Rightarrow>
     py_error + float64 list" where
  "butter_filter_depth depth L data0 cutoff fs btype order =
     (if length data0 = 0 then data0
      else
        let data = (if \<not> list_all isfinite data0 then where_finite data0 else data0)
        in if cutoff_invalid cutoff fs then data
        else
          let min_length = max (order * 6) 9
          in if int (length data) < min_length then data
          else
            let data_size_mb = real (8 * length data) / (1024 * 1024);
                use_gpu = (GPU_AVAILABLE L \<and> data_size_mb > 10)
            in if use_gpu
               then (case (case depth of
                             0 \<Rightarrow> Inl RecursionError
                           | Suc d \<Rightarrow> gpu_butter_filter d L data cutoff fs btype order) of
                       Inr r \<Rightarrow> r
                     | Inl _ \<Rightarrow> cpu_filter L data cutoff fs btype order)
               else cpu_filter L data cutoff fs btype order)"
| "gpu_butter_filter depth L data cutoff fs btype order =
     (if \<not> gpu_accel_available L then
        (case depth of
           0 \<Rightarrow> Inl RecursionError
         | Suc d \<Rightarrow> Inr (butter_filter_depth d L data cutoff fs btype order))
      else
        (case gpu_try L data cutoff fs btype order of
           Inr filtered_data \<Rightarrow> Inr filtered_data
         | Inl _ \<Rightarrow>
             (case depth of
                0 \<Rightarrow> Inl RecursionError
              | Suc d \<Rightarrow> Inr (butter_filter_depth d L data cutoff fs btype order))))"

declare butter_filter_depth.simps [simp del]
declare gpu_butter_filter.simps [simp del]

definition butter_filter_arr ::
  "'sos numlib \<Rightarrow> float64 list \<Rightarrow> cutoff \<Rightarrow> real \<Rightarrow> string \<Rightarrow> int \<Rightarrow> float64 list" where
  "butter_filter_arr L data cutoff fs btype order =
     butter_filter_depth (recursion_limit L) L data cutoff fs btype order"

text \<open>
  \<^verbatim>\<open>butter_filter(data, cutoff, fs, btype, order, zero_phase)\<close>.  \<open>None\<close> is returned as it
  is; \<^verbatim>\<open>zero_phase\<close> is never read.  Every exception of the body is caught and
  answered with \<^verbatim>\<open>data\<close>, so the function has no error outcome.
\<close>

definition butter_filter ::
  "'sos numlib \<Rightarrow> float64 list option \<Rightarrow> cutoff \<Rightarrow> real \<Rightarrow> string \<Rightarrow> int \<Rightarrow>
   float64 list option" where
  "butter_filter L data cutoff fs btype order =
     (case data of
        None \<Rightarrow> None
      | Some d \<Rightarrow> Some (butter_filter_arr L d cutoff fs btype order))"

section \<open>Bleaching/motion corrector (\<^verbatim>\<open>signal_processing.fit_bleaching_correction\<close>)\<close>

definition np_mean :: "real list \<Rightarrow> real" where
  "np_mean xs = sum_list xs / real (length xs)"

definition np_std :: "real list \<Rightarrow> real" where
  "np_std xs = sqrt (np_mean (map (\<lambda>x. (x - np_mean xs)\<^sup>2) xs))"

definition zeros_like :: "real list \<Rightarrow> real list" where
  "zeros_like xs = map (\<lambda>_. 0) xs"

definition fit_bleaching_correction ::
  "'sos numlib \<Rightarrow> real list \<Rightarrow> real list option \<Rightarrow> py_error + real list" where
  "fit_bleaching_correction L signal control =
     (case control of
        None \<Rightarrow> Inr (zeros_like signal)
      | Some c \<Rightarrow>
          if length c = 0 \<or> length signal = 0 then Inr (zeros_like signal)
          else if np_std c < (1 / 10 ^ 9) \<or> np_std signal < (1 / 10 ^ 9) then
            let scale_factor = np_mean signal / (if np_mean c > (1 / 10 ^ 9) then np_mean c else 1.0)
            in Inr (map (\<lambda>v. v * scale_factor) c)
          else
            (case linregress L c signal of
               Inl e \<Rightarrow> Inl e
             | Inr (slope, intercept) \<Rightarrow> Inr (map (\<lambda>v. slope * v + intercept) c)))"

section \<open>Pipeline orchestrator (\<^verbatim>\<open>signal_processing.process_data_pipeline\<close>)\<close>

text \<open>NumPy subtraction of two one-dimensional arrays, with broadcasting of length 1.\<close>

definition np_sub :: "real list \<Rightarrow> real list \<Rightarrow> py_error + real list" where
  "np_sub a b =
     (if length a = length b then Inr (map2 (-) a b)
      else if length b = 1 then Inr (map (\<lambda>x. x - hd b) a)
      else if length a = 1 then Inr (map (\<lambda>y. hd a - y) b)
      else Inl ValueError)"

text \<open>\<^verbatim>\<open>np.linspace(0, 1, n)\<close>\<close>

definition linspace01 :: "nat \<Rightarrow> real list" where
  "linspace01 n = (if n = 1 then [0] else map (\<lambda>i. real i / real (n - 1)) [0..<n])"

text \<open>\<^verbatim>\<open>poly.polyval(x, c)\<close>: Horner evaluation of \<open>c\<^sub>0 + c\<^sub>1 x + \<dots>\<close> at every point.\<close>

definition polyval :: "real list \<Rightarrow> real list \<Rightarrow> py_error + real list" where
  "polyval xs c =
     (if c = [] then Inl IndexError
      else Inr (map (\<lambda>x. foldr (\<lambda>ck acc. ck + x * acc) c 0) xs))"

text \<open>\<^verbatim>\<open>np.percentile(a, q)\<close> with the default linear interpolation between order statistics.\<close>

definition np_percentile :: "real list \<Rightarrow> real \<Rightarrow> py_error + real" where
  "np_percentile a q =
     (if a = [] then Inl IndexError
      else
        let s = sort a;
            pos = real (length a - 1) * q / 100;
            lo = nat \<lfloor>pos\<rfloor>;
            hi = min (lo + 1) (length a - 1)
        in Inr (s ! lo + (pos - real lo) * (s ! hi - s ! lo)))"

text \<open>\<^verbatim>\<open>a[::k]\<close> for \<open>k \<ge> 1\<close>: keep the first sample, skip \<open>k - 1\<close>, repeat.\<close>

fun stride :: "nat \<Rightarrow> 'a list \<Rightarrow> 'a list" where
  "stride k [] = []"
| "stride k (x # xs) = x # stride k (drop (k - 1) xs)"

definition sanitize :: "float64 list \<Rightarrow> real list" where
  \<comment> \<open>\<^verbatim>\<open>np.asarray\<close> followed by the replacement of non-finite samples by zero\<close>
  "sanitize raw = map fin_val (if \<not> list_all isfinite raw then where_finite raw else raw)"

text \<open>
  The stages after the filter are modelled on finite samples.  The filter stage answers
  finite samples on every path but one: the accelerated path returns SciPy's result
  unchecked, and a non-finite sample in it is read as \<open>0\<close> here.  Lengths and positions,
  which the statements about decimation are about, are not affected.
\<close>

definition run_filter ::
  "'sos numlib \<Rightarrow> real list \<Rightarrow> cutoff \<Rightarrow> real \<Rightarrow> string \<Rightarrow> int \<Rightarrow> real list" where
  \<comment> \<open>\<^verbatim>\<open>butter_filter\<close> applied to an array that is already finite\<close>
  "run_filter L x cutoff fs btype order =
     map fin_val (butter_filter_arr L (map Fin x) cutoff fs btype order)"

definition filter_stage ::
  "'sos numlib \<Rightarrow> string \<Rightarrow> real list \<Rightarrow> real list option \<Rightarrow> real \<Rightarrow> real \<Rightarrow> real \<Rightarrow> int \<Rightarrow>
   real list \<times> real list option" where
  "filter_stage L filter_type processed_signal processed_control low_cutoff high_cutoff fs
       filter_order =
     (if filter_type = ''Lowpass'' then
        (run_filter L processed_signal (Scalar high_cutoff) fs ''low'' filter_order,
         map_option (\<lambda>c. run_filter L c (Scalar high_cutoff) fs ''low'' filter_order)
           processed_control)
      else if filter_type = ''Highpass'' then
        (run_filter L processed_signal (Scalar low_cutoff) fs ''high'' filter_order,
         map_option (\<lambda>c. run_filter L c (Scalar low_cutoff) fs ''high'' filter_order)
           processed_control)
      else if filter_type = ''Bandpass'' then
        (run_filter L processed_signal (Band [low_cutoff, high_cutoff]) fs ''bandpass''
           filter_order,
         map_option (\<lambda>c. run_filter L c (Band [low_cutoff, high_cutoff]) fs ''bandpass''
           filter_order) processed_control)
      else if filter_type = ''Bandstop'' then
        (run_filter L processed_signal (Band [low_cutoff, high_cutoff]) fs ''bandstop''
           filter_order,
         map_option (\<lambda>c. run_filter L c (Band [low_cutoff, high_cutoff]) fs ''bandstop''
           filter_order) processed_control)
      else (processed_signal, processed_control))"

definition motion_stage :: "'sos numlib \<Rightarrow> real list \<Rightarrow> real list option \<Rightarrow> real list" where
  "motion_stage L processed_signal processed_control =
     (case processed_control of
        None \<Rightarrow> processed_signal
      | Some c \<Rightarrow>
          (case fit_bleaching_correction L processed_signal (Some c) of
             Inl _ \<Rightarrow> processed_signal
           | Inr fit \<Rightarrow>
               (case np_sub processed_signal fit of
                  Inl _ \<Rightarrow> processed_signal
                | Inr motion_corrected \<Rightarrow> motion_corrected)))"

definition drift_stage ::
  "'sos numlib \<Rightarrow> real list \<Rightarrow> bool \<Rightarrow> int \<Rightarrow> real list \<times> real list option" where
  \<comment> \<open>returns \<^verbatim>\<open>(detrended_signal, drift_curve)\<close>\<close>
  "drift_stage L motion_corrected drift_correction drift_degree =
     (if drift_correction then
        let time_norm = linspace01 (length motion_corrected)
        in case polyfit L time_norm motion_corrected drift_degree of
             Inl _ \<Rightarrow> (motion_corrected, None)
           | Inr coeffs \<Rightarrow>
               (case polyval time_norm coeffs of
                  Inl _ \<Rightarrow> (motion_corrected, None)
                | Inr drift_curve \<Rightarrow>
                    (case np_sub motion_corrected drift_curve of
                       Inl _ \<Rightarrow> (motion_corrected, None)
                     | Inr detrended_signal \<Rightarrow> (detrended_signal, Some drift_curve)))
      else (motion_corrected, None))"

definition dff_stage :: "real list \<Rightarrow> real list" where
  "dff_stage detrended_signal =
     (case np_percentile detrended_signal 10 of
        Inl _ \<Rightarrow> zeros_like detrended_signal
      | Inr p \<Rightarrow>
          let f0 = max \<bar>p\<bar> (1 / 10 ^ 9)
          in map (\<lambda>d. (d - f0) / f0 * 100) detrended_signal)"

text \<open>
  The six arrays before decimation: time, dF/F, raw1, raw2, baseline curve, artifact mask.
  They are computed only after the validation of the inputs has passed.
\<close>

record full_arrays =
  fa_time :: "real list option"
  fa_dff :: "real list"
  fa_raw1 :: "real list"
  fa_raw2 :: "real list option"
  fa_drift :: "real list option"
  fa_mask :: "bool list"

definition pipeline_stages ::
  "'sos numlib \<Rightarrow> real list option \<Rightarrow> float64 list \<Rightarrow> float64 list option \<Rightarrow> real \<Rightarrow>
   real \<Rightarrow> real \<Rightarrow> bool \<Rightarrow> int \<Rightarrow> string \<Rightarrow> int \<Rightarrow> bool \<Rightarrow> full_arrays" where
  "pipeline_stages L time_raw signal_raw control_raw fs low_cutoff high_cutoff
       drift_correction drift_degree filter_type filter_order filter_raw_signals =
     (let processed_signal0 = sanitize signal_raw;
          processed_control0 = map_option sanitize control_raw;
          artifact_mask =
            (case processed_control0 of
               Some c \<Rightarrow> detect_artifacts c 3.0
             | None \<Rightarrow> map (\<lambda>_. False) processed_signal0);
          original_signal = processed_signal0;
          original_control = processed_control0;
          (processed_signal, processed_control) =
            filter_stage L filter_type processed_signal0 processed_control0
              low_cutoff high_cutoff fs filter_order;
          motion_corrected = motion_stage L processed_signal processed_control;
          (detrended_signal, drift_curve) =
            drift_stage L motion_corrected drift_correction drift_degree;
          dff_signal = dff_stage detrended_signal
      in \<lparr> fa_time = time_raw,
           fa_dff = dff_signal,
           fa_raw1 = (if filter_raw_signals then processed_signal else original_signal),
           fa_raw2 = (if filter_raw_signals then processed_control else original_control),
           fa_drift = drift_curve,
           fa_mask = artifact_mask \<rparr>)"

type_synonym pipeline_out =
  "real list option \<times> real list option \<times> real list option \<times> real list option \<times>
   real list option \<times> bool list option"

definition all_none :: pipeline_out where
  "all_none = (None, None, None, None, None, None)"

definition downsample :: "full_arrays \<Rightarrow> int \<Rightarrow> pipeline_out" where
  "downsample fa downsample_factor =
     (let factor = nat (max 1 downsample_factor)
      in case fa_time fa of
           None \<Rightarrow> all_none  \<comment> \<open>slicing \<^verbatim>\<open>None\<close> raises; the handler returns six \<^verbatim>\<open>None\<close>\<close>
         | Some time_raw \<Rightarrow>
             (Some (stride factor time_raw),
              Some (stride factor (fa_dff fa)),
              Some (stride factor (fa_raw1 fa)),
              map_option (stride factor) (fa_raw2 fa),
              map_option (stride factor) (fa_drift fa),
              Some (stride factor (fa_mask fa))))"

definition process_data_pipeline ::
  "'sos numlib \<Rightarrow> real list option \<Rightarrow> float64 list option \<Rightarrow> float64 list option \<Rightarrow> real \<Rightarrow>
   real \<Rightarrow> real \<Rightarrow> bool \<Rightarrow> int \<Rightarrow> int \<Rightarrow> string \<Rightarrow> int \<Rightarrow> bool \<Rightarrow> pipeline_out" where
  "process_data_pipeline L time_raw signal_raw control_raw fs low_cutoff high_cutoff
       drift_correction drift_degree downsample_factor filter_type filter_order
       filter_raw_signals =
     (case signal_raw of
        None \<Rightarrow> all_none
      | Some sig \<Rightarrow>
          if length sig = 0 then all_none
          else if fs \<le> 0 then all_none
          else if low_cutoff \<ge> high_cutoff then all_none
          else
            downsample
              (pipeline_stages L time_raw sig control_raw fs low_cutoff high_cutoff
                 drift_correction drift_degree filter_type filter_order filter_raw_signals)
              downsample_factor)"

section \<open>Event metrics engine (\<^verbatim>\<open>analysis.peak_analysis.calculate_peak_metrics\<close>)\<close>

text \<open>
  Index arrays are lists of natural numbers; a metric that is not available
  (\<^verbatim>\<open>np.nan\<close>) is \<open>None\<close>.  \<^verbatim>\<open>idx.any()\<close> on an index array asks for a non-zero
  element, not for a non-empty array.
\<close>

definition np_any :: "nat list \<Rightarrow> bool" where
  "np_any idx = list_ex (\<lambda>i. i \<noteq> 0) idx"

text \<open>\<^verbatim>\<open>a[lo:hi]\<close> for non-negative bounds.\<close>

definition py_slice :: "nat \<Rightarrow> nat \<Rightarrow> 'a list \<Rightarrow> 'a list" where
  "py_slice lo hi a = drop lo (take hi a)"









section \<open>PSTH builder (\<^verbatim>\<open>gui.main_window.generate_psth\<close>)\<close>

text \<open>
  The method reads its parameters and the selected data set from the window, reports
  through message boxes and draws the result.  The model takes what it reads as arguments
  and returns what it reports: one of the message boxes, or the arrays it plots.  The
  whole body runs inside \<^verbatim>\<open>try\<close>; an exception ends in the error box
  \<^verbatim>\<open>Failed to generate PSTH\<close>.
\<close>

datatype events_entry = NoEventDict | NoTimes | Times "real list"

record psth_data =
  d_time :: "real list option"
  d_dff :: "real list option"
  d_events :: events_entry

record psth_result =
  time_centers :: "real list"
  psth_matrix :: "real list list"
  psth_mean :: "real list"
  psth_sem :: "real list"
  valid_events :: nat

datatype psth_outcome =
    Error_parameters        \<comment> \<open>\<^verbatim>\<open>Time windows and bin size must be positive values.\<close>\<close>
  | Info_no_data            \<comment> \<open>\<^verbatim>\<open>No processed ... data available.\<close>\<close>
  | Info_no_event_data      \<comment> \<open>\<^verbatim>\<open>No peak data found ...\<close>\<close>
  | Info_no_events          \<comment> \<open>\<^verbatim>\<open>No peaks detected ...\<close> and \<^verbatim>\<open>No valid ... times found.\<close>\<close>
  | Error_signal            \<comment> \<open>\<^verbatim>\<open>Invalid ... signal data.\<close>\<close>
  | Info_none_in_range      \<comment> \<open>\<^verbatim>\<open>No ... are within the valid time range.\<close>\<close>
  | Info_no_valid_events    \<comment> \<open>\<^verbatim>\<open>No valid events found for PSTH analysis.\<close>\<close>
  | Error_failed py_error   \<comment> \<open>\<^verbatim>\<open>Failed to generate PSTH: ...\<close>\<close>
  | PSTH psth_result

text \<open>\<^verbatim>\<open>np.arange(start, stop, step)\<close> for a positive step.\<close>

definition np_arange :: "real \<Rightarrow> real \<Rightarrow> real \<Rightarrow> real list" where
  "np_arange start stop step =
     map (\<lambda>i. start + real i * step) [0..<nat \<lceil>(stop - start) / step\<rceil>]"

text \<open>\<^verbatim>\<open>np.searchsorted(a, v)\<close> on an increasing array: the number of elements below \<open>v\<close>.\<close>

definition np_searchsorted :: "real list \<Rightarrow> real \<Rightarrow> nat" where
  "np_searchsorted a v = length (filter (\<lambda>t. t < v) a)"

text \<open>
  \<^verbatim>\<open>np.interp(x, xp, fp)\<close> at one point, for increasing \<open>xp\<close>: linear between the
  knots, constant outside them.  The array version raises when \<open>xp\<close> and \<open>fp\<close> differ in
  length.
\<close>

fun interp_knots :: "real \<Rightarrow> (real \<times> real) list \<Rightarrow> real" where
  "interp_knots x [] = 0"
| "interp_knots x [(a, fa)] = fa"
| "interp_knots x ((a, fa) # (b, fb) # rest) =
     (if x < b then fa + (x - a) * (fb - fa) / (b - a)
      else interp_knots x ((b, fb) # rest))"

definition np_interp :: "real list \<Rightarrow> real list \<Rightarrow> real list \<Rightarrow> py_error + real list" where
  "np_interp xs xp fp =
     (if length xp \<noteq> length fp \<or> xp = [] then Inl ValueError
      else Inr (map (\<lambda>x. if x \<le> hd xp then hd fp else interp_knots x (zip xp fp)) xs))"

text \<open>
  One pass of the loop over the events that passed the range filter: \<open>None\<close> when the
  event is skipped, otherwise the interpolated row or the exception of \<^verbatim>\<open>np.interp\<close>.
\<close>

definition event_row ::
  "real list \<Rightarrow> real list \<Rightarrow> real \<Rightarrow> real \<Rightarrow> real list \<Rightarrow> real \<Rightarrow> (py_error + real list) option" where
  "event_row time signal pre_time post_time centers event_time =
     (let start_idx = np_searchsorted time (event_time - pre_time);
          end_idx = np_searchsorted time (event_time + post_time)
      in if end_idx \<ge> length time then None
         else
           let event_time_rel = map (\<lambda>t. t - event_time) (py_slice start_idx end_idx time);
               event_signal = py_slice start_idx end_idx signal
           in if length event_time_rel > 1
              then Some (np_interp centers event_time_rel event_signal)
              else None)"

fun psth_rows ::
  "real list \<Rightarrow> real list \<Rightarrow> real \<Rightarrow> real \<Rightarrow> real list \<Rightarrow> real list \<Rightarrow> py_error + real list list" where
  "psth_rows time signal pre_time post_time centers [] = Inr []"
| "psth_rows time signal pre_time post_time centers (e # es) =
     (case event_row time signal pre_time post_time centers e of
        None \<Rightarrow> psth_rows time signal pre_time post_time centers es
      | Some (Inl err) \<Rightarrow> Inl err
      | Some (Inr row) \<Rightarrow>
          (case psth_rows time signal pre_time post_time centers es of
             Inl err \<Rightarrow> Inl err
           | Inr rows \<Rightarrow> Inr (row # rows)))"

text \<open>Column means and standard deviations of the matrix of rows (\<^verbatim>\<open>axis=0\<close>).\<close>

definition column :: "real list list \<Rightarrow> nat \<Rightarrow> real list" where
  "column rows j = map (\<lambda>row. row ! j) rows"

definition generate_psth :: "real \<Rightarrow> real \<Rightarrow> real \<Rightarrow> psth_data option \<Rightarrow> psth_outcome" where
  "generate_psth pre_time post_time bin_size data =
     (if pre_time \<le> 0 \<or> post_time \<le> 0 \<or> bin_size \<le> 0 then Error_parameters
      else case data of
        None \<Rightarrow> Info_no_data
      | Some dat \<Rightarrow>
      (case d_dff dat of
        None \<Rightarrow> Info_no_data
      | Some signal \<Rightarrow>
      (case d_events dat of
        NoEventDict \<Rightarrow> Info_no_event_data
      | NoTimes \<Rightarrow> Info_no_events
      | Times event_times \<Rightarrow>
          if length event_times = 0 then Info_no_events
          else
          (case d_time dat of
             None \<Rightarrow> Error_signal
           | Some time \<Rightarrow>
               if length time = 0 \<or> length signal = 0 then Error_signal
               else
                 let time_min = Min (set time);
                     time_max = Max (set time);
                     valid = (\<lambda>e. e \<ge> time_min + pre_time \<and> e \<le> time_max - post_time)
                 in if \<not> list_ex valid event_times then Info_none_in_range
                 else
                   let events = filter valid event_times;
                       time_bins = np_arange (- pre_time) (post_time + bin_size) bin_size;
                       centers = map (\<lambda>b. b + bin_size / 2) (butlast time_bins)
                   in case psth_rows time signal pre_time post_time centers events of
                        Inl err \<Rightarrow> Error_failed err
                      | Inr rows \<Rightarrow>
                          if length rows = 0 then Info_no_valid_events
                          else
                            let n = real (length rows);
                                means = map (\<lambda>j. np_mean (column rows j)) [0..<length centers];
                                sems = map (\<lambda>j. np_std (column rows j) / sqrt n)
                                         [0..<length centers]
                            in PSTH \<lparr> time_centers = centers, psth_matrix = rows,
                                      psth_mean = means, psth_sem = sems,
                                      valid_events = length rows \<rparr>))))"

section \<open>Contracts used in the statements\<close>

text \<open>
  Decimation alignment as the specification words it: \<open>out\<close> has length \<open>\<lceil>N/k\<rceil>\<close> and
  its element \<open>i\<close> is element \<open>i * k\<close> of the full array of length \<open>N\<close>.
\<close>

definition aligned_decimation :: "nat \<Rightarrow> nat \<Rightarrow> 'a list \<Rightarrow> 'a list \<Rightarrow> bool" where
  "aligned_decimation N k full out \<longleftrightarrow>
     length full = N \<and> length out = nat \<lceil>real N / real k\<rceil> \<and>
     (\<forall>i<length out. out ! i = full ! (i * k))"

definition aligned_opt :: "nat \<Rightarrow> nat \<Rightarrow> 'a list option \<Rightarrow> 'a list option \<Rightarrow> bool" where
  \<comment> \<open>an optional array is absent on both sides or decimated in alignment\<close>
  "aligned_opt N k full out =
     (case full of
        None \<Rightarrow> out = None
      | Some f \<Rightarrow> (case out of None \<Rightarrow> False | Some r \<Rightarrow> aligned_decimation N k f r))"



text \<open>
  A stand-in for the external routines, used to run the model on concrete inputs: no
  accelerated module, a filter that answers the zero trace (the exact response of a
  band-pass filter to a constant trace), and regressions that answer the zero fit.
\<close>

definition zero_lib :: "unit numlib" where
  "zero_lib =
     \<lparr> GPU_AVAILABLE = False,
       gpu_accel_available = False,
       recursion_limit = 1000,
       butter = (\<lambda>order wn btype. Inr ()),
       sosfiltfilt = (\<lambda>sos x padlen. Inr (\<lambda>i. Fin 0)),
       linregress = (\<lambda>x y. Inr (0, 0)),
       polyfit = (\<lambda>x y deg. Inr (replicate (nat deg + 1) 0)) \<rparr>"

section \<open>Properties of the artifact detector\<close>

lemma np_median_nonneg:
  assumes "xs \<noteq> []" and "\<forall>x\<in>set xs. 0 \<le> x"
  shows "0 \<le> np_median xs"
proof -
  let ?s = "sort xs"
  let ?n = "length xs"
  have len: "length ?s = ?n" by simp
  have pos: "0 < ?n" using assms(1) by simp
  have mem: "\<And>i. i < ?n \<Longrightarrow> 0 \<le> ?s ! i"
  proof -
    fix i assume "i < ?n"
    then have "?s ! i \<in> set ?s" using len by (metis nth_mem)
    then show "0 \<le> ?s ! i" using assms(2) by simp
  qed
  have a: "0 \<le> ?s ! (?n div 2)" using pos by (intro mem) simp
  have b: "0 \<le> ?s ! (?n div 2 - 1)" using pos by (intro mem) arith
  show ?thesis unfolding np_median_def Let_def using a b by simp
qed

lemma mad_nonneg:
  "xs \<noteq> [] \<Longrightarrow> 0 \<le> np_median (map (\<lambda>v. \<bar>v - m\<bar>) xs)"
  by (rule np_median_nonneg) auto

lemma np_median_single: "np_median [x] = x"
  by (simp add: np_median_def)

text \<open>
  C6.  The mask has the length of the reference channel; sample \<open>i\<close> is flagged exactly
  when \<open>|value - median| > threshold * MAD * 1.4826\<close>; and raising the threshold can only
  shrink the set of flagged samples.
\<close>

theorem detect_artifacts_monotone:
  assumes "\<theta>1 < \<theta>2"
  shows "length (detect_artifacts xs \<theta>1) = length xs
       \<and> length (detect_artifacts xs \<theta>2) = length xs
       \<and> (\<forall>i<length xs. detect_artifacts xs \<theta>2 ! i \<longrightarrow> detect_artifacts xs \<theta>1 ! i)
       \<and> (\<forall>\<theta>. \<forall>i<length xs. detect_artifacts xs \<theta> ! i \<longleftrightarrow>
             \<bar>xs ! i - np_median xs\<bar>
               > \<theta> * np_median (map (\<lambda>v. \<bar>v - np_median xs\<bar>) xs) * 1.4826)"
proof -
  have flag: "detect_artifacts xs \<theta> ! i \<longleftrightarrow>
        \<bar>xs ! i - np_median xs\<bar> > \<theta> * np_median (map (\<lambda>v. \<bar>v - np_median xs\<bar>) xs) * 1.4826"
    if "i < length xs" for \<theta> i
  proof (cases "length xs < 2")
    case True
    with that obtain x where xs: "xs = [x]" and i: "i = 0"
      by (cases xs) auto
    show ?thesis unfolding xs i by (simp add: detect_artifacts_def np_median_single)
  next
    case False
    then show ?thesis using that
      by (simp add: detect_artifacts_def Let_def mad_to_std_def)
  qed
  have len: "length (detect_artifacts xs \<theta>) = length xs" for \<theta>
    by (simp add: detect_artifacts_def Let_def)
  have mono: "detect_artifacts xs \<theta>1 ! i" if "i < length xs" "detect_artifacts xs \<theta>2 ! i" for i
  proof -
    let ?mad = "np_median (map (\<lambda>v. \<bar>v - np_median xs\<bar>) xs)"
    have "xs \<noteq> []" using that(1) by auto
    then have "0 \<le> ?mad" by (rule mad_nonneg)
    then have "\<theta>1 * ?mad * 1.4826 \<le> \<theta>2 * ?mad * 1.4826"
      using assms by (simp add: mult_right_mono)
    moreover have "\<bar>xs ! i - np_median xs\<bar> > \<theta>2 * ?mad * 1.4826"
      using that flag by blast
    ultimately have "\<bar>xs ! i - np_median xs\<bar> > \<theta>1 * ?mad * 1.4826" by linarith
    then show ?thesis using flag[OF that(1), of \<theta>1] by blast
  qed
  show ?thesis using len flag mono by blast
qed

theorem detect_artifacts_monotone_witness:
  "(1::real) < 3 \<and> length (detect_artifacts [1, 2, 3, 100] 3) = 4
     \<and> detect_artifacts [1, 2, 3, 100] 3 ! 3 \<and> detect_artifacts [1, 2, 3, 100] 1 ! 3"
  using detect_artifacts_monotone[of 1 3 "[1, 2, 3, 100]"]
  by (simp add: detect_artifacts_def np_median_def mad_to_std_def)

section \<open>Properties of the denoiser\<close>

lemma fold_update_length:
  "length (fold (\<lambda>(i, v) b. b[i := v]) ps a) = length a"
  by (induction ps arbitrary: a) (auto split: prod.splits)

lemma fold_update_frame:
  "j \<notin> fst ` set ps \<Longrightarrow> fold (\<lambda>(i, v) b. b[i := v]) ps a ! j = a ! j"
  by (induction ps arbitrary: a) (auto split: prod.splits)

lemma put_indices_frame:
  assumes "put_indices a idx vals = Inr out"
  shows "length out = length a \<and> (\<forall>j. j \<notin> set idx \<longrightarrow> out ! j = a ! j)"
proof -
  from assms have out: "out = fold (\<lambda>(i, v) b. b[i := v]) (zip idx vals) a"
    by (auto simp: put_indices_def split: if_splits)
  have "j \<notin> fst ` set (zip idx vals)" if "j \<notin> set idx" for j
    using that by (auto dest: set_zip_leftD)
  then show ?thesis unfolding out
    by (simp add: fold_update_length fold_update_frame)
qed

lemma interp_fill_frame:
  "interp_fill f a t idx = Inr out \<Longrightarrow>
     length out = length a \<and> (\<forall>j. j \<notin> set idx \<longrightarrow> out ! j = a ! j)"
  by (auto simp: interp_fill_def split: sum.splits dest: put_indices_frame)

lemma regress_fill_frame:
  "regress_fill lr f a t c vi idx = Inr out \<Longrightarrow>
     length out = length a \<and> (\<forall>j. j \<notin> set idx \<longrightarrow> out ! j = a ! j)"
  by (auto simp: regress_fill_def split: sum.splits prod.splits dest: put_indices_frame)

lemma np_where_set: "set (np_where m) = {i. i < length m \<and> m ! i}"
  by (auto simp: np_where_def)

lemma np_where_Not_length: "length (np_where (map Not m)) = length (filter Not m)"
proof -
  have "np_where (map Not m) = filter (\<lambda>i. \<not> m ! i) [0..<length m]"
    unfolding np_where_def by (auto intro: filter_cong)
  moreover have "length (filter (\<lambda>i. \<not> m ! i) [0..<length m]) = length (filter Not m)"
  proof -
    have "map (\<lambda>i. m ! i) [0..<length m] = m" by (rule map_nth)
    then have "filter Not m = filter Not (map (\<lambda>i. m ! i) [0..<length m])" by simp
    also have "\<dots> = map (\<lambda>i. m ! i) (filter (\<lambda>i. \<not> m ! i) [0..<length m])"
      by (simp add: filter_map comp_def)
    finally show ?thesis by simp
  qed
  ultimately show ?thesis by simp
qed

lemma advanced_denoise_frame:
  assumes "advanced_denoise_signal ip lr signal time msk ctl aggr = Inr out"
  shows "length out = length signal
       \<and> (\<forall>j. \<not> (j < length msk \<and> msk ! j) \<longrightarrow> out ! j = signal ! j)"
proof -
  have idx: "j \<notin> set (np_where msk)" if "\<not> (j < length msk \<and> msk ! j)" for j
    using that by (simp add: np_where_set)
  from assms show ?thesis
    unfolding advanced_denoise_signal_def Let_def
    by (auto split: if_splits sum.splits
             dest!: interp_fill_frame regress_fill_frame simp: idx)
qed

text \<open>
  C10.  Whenever the denoiser returns, the result has the signal's length and agrees with
  the signal at every index that the mask does not flag; with fewer than two unflagged
  samples the signal comes back unchanged; and on arrays of one common length (with an
  interpolant available for any two or more knots) the denoiser does return.
\<close>

theorem advanced_denoise_preserves_clean:
  "(\<forall>out. advanced_denoise_signal ip lr signal time msk ctl aggr = Inr out \<longrightarrow>
        length out = length signal
      \<and> (\<forall>j<length signal. \<not> (j < length msk \<and> msk ! j) \<longrightarrow> out ! j = signal ! j))
   \<and> (length (filter Not msk) < 2 \<longrightarrow>
        advanced_denoise_signal ip lr signal time msk ctl aggr = Inr signal)
   \<and> (length time = length signal \<and> length msk = length signal
        \<and> (\<forall>x y. length x = length y \<and> 2 \<le> length x \<longrightarrow> (\<exists>f. ip x y = Inr f)) \<longrightarrow>
        (\<exists>out. advanced_denoise_signal ip lr signal time msk ctl aggr = Inr out))"
proof (intro conjI allI impI)
  fix out assume "advanced_denoise_signal ip lr signal time msk ctl aggr = Inr out"
  from advanced_denoise_frame[OF this]
  show "length out = length signal" 
    and "\<And>j. j < length signal \<Longrightarrow> \<not> (j < length msk \<and> msk ! j) \<Longrightarrow> out ! j = signal ! j"
    by blast+
next
  assume "length (filter Not msk) < 2"
  then show "advanced_denoise_signal ip lr signal time msk ctl aggr = Inr signal"
    by (simp add: advanced_denoise_signal_def Let_def np_where_Not_length)
next
  assume a: "length time = length signal \<and> length msk = length signal
        \<and> (\<forall>x y. length x = length y \<and> 2 \<le> length x \<longrightarrow> (\<exists>f. ip x y = Inr f))"
  let ?vi = "np_where (map Not msk)" and ?ai = "np_where msk"
  have vi: "\<forall>i\<in>set ?vi. i < length signal" "\<forall>i\<in>set ?vi. i < length time"
    using a by (auto simp: np_where_set)
  have ai: "\<forall>i\<in>set ?ai. i < length signal" "\<forall>i\<in>set ?ai. i < length time"
    using a by (auto simp: np_where_set)
  have fill: "\<exists>out. interp_fill f signal time ?ai = Inr out" for f
    using ai by (simp add: interp_fill_def take_indices_def put_indices_def)
  show "\<exists>out. advanced_denoise_signal ip lr signal time msk ctl aggr = Inr out"
  proof (cases "\<not> list_ex (\<lambda>b. b) msk \<or> length ?vi < 2")
    case True
    then show ?thesis by (auto simp: advanced_denoise_signal_def Let_def)
  next
    case False
    then have "2 \<le> length ?vi" by simp
    then obtain f where f: "ip (map (\<lambda>i. time ! i) ?vi) (map (\<lambda>i. signal ! i) ?vi) = Inr f"
      using a by (metis length_map)
    show ?thesis
      using False f vi fill[of f]
      by (auto simp: advanced_denoise_signal_def Let_def take_indices_def split: sum.splits)
  qed
qed

theorem advanced_denoise_preserves_clean_witness:
  "advanced_denoise_signal (\<lambda>x y. Inr (\<lambda>t. hd y)) (\<lambda>x y. Inl ValueError)
       [1, 2, 50, 4] [0, 1, 2, 3] [False, False, True, False] None False = Inr [1, 2, 1, 4]
   \<and> length (filter Not [False, False, True, False]) = 3
   \<and> advanced_denoise_signal (\<lambda>x y. Inr (\<lambda>t. hd y)) (\<lambda>x y. Inl ValueError)
       [1, 2, 50, 4] [0, 1, 2, 3] [True, True, True, False] None False = Inr [1, 2, 50, 4]"
  using advanced_denoise_preserves_clean[of "\<lambda>x y. Inr (\<lambda>t. hd y)" "\<lambda>x y. Inl ValueError"
       "[1, 2, 50, 4]" "[0, 1, 2, 3]" "[False, False, True, False]" None False]
    advanced_denoise_preserves_clean[of "\<lambda>x y. Inr (\<lambda>t. hd y)" "\<lambda>x y. Inl ValueError"
       "[1, 2, 50, 4]" "[0, 1, 2, 3]" "[True, True, True, False]" None False]
  by (simp add: advanced_denoise_signal_def np_where_def take_indices_def interp_fill_def
        put_indices_def upt_rec)

section \<open>Properties of decimation\<close>

lemma div_aux1: "a < m \<Longrightarrow> Suc (a + m) div Suc m = 1"
proof -
  assume "a < m"
  have "Suc (a + m) = 1 * Suc m + a" by simp
  then have "Suc (a + m) div Suc m = 1 + a div Suc m"
    by (metis div_mult_self3 nat.simps(3))
  then show ?thesis using \<open>a < m\<close> by simp
qed

lemma div_aux2: "(j * Suc m + m) div Suc m = j"
proof -
  have "(j * Suc m + m) div Suc m = j + m div Suc m"
    by (metis div_mult_self3 nat.simps(3))
  then show ?thesis by simp
qed

lemma ceil_div_Suc: "nat \<lceil>real N / real (Suc m)\<rceil> = (N + m) div Suc m"
proof -
  define k where "k = Suc m"
  define q where "q = (N + m) div k"
  have kpos: "0 < real k" by (simp add: k_def)
  have lo: "q * k \<le> N + m" unfolding q_def by simp
  have "N + m < q * k + k" unfolding q_def using k_def
    by (metis add.commute dividend_less_div_times zero_less_Suc)
  then have hi: "N \<le> q * k" by (simp add: k_def)
  from lo have lo': "q * k < N + k" by (simp add: k_def)
  have 1: "real_of_int (int q) - 1 < real N / real k"
  proof -
    have "real (q * k) < real (N + k)" using lo' by (simp only: of_nat_less_iff)
    then have "(real q - 1) * real k < real N" by (simp add: algebra_simps)
    then show ?thesis using kpos by (simp add: pos_less_divide_eq)
  qed
  have 2: "real N / real k \<le> real_of_int (int q)"
  proof -
    have "real N \<le> real (q * k)" using hi by (simp only: of_nat_le_iff)
    then show ?thesis using kpos by (simp add: pos_divide_le_eq)
  qed
  have "\<lceil>real N / real k\<rceil> = int q" using 1 2 by (rule ceiling_unique)
  then show ?thesis by (simp add: k_def q_def)
qed

lemma stride_length_Suc: "length (stride (Suc m) xs) = (length xs + m) div Suc m"
proof (induction "Suc m" xs rule: stride.induct)
  case 1 then show ?case by simp
next
  case (2 x xs)
  show ?case
  proof (cases "length xs < m")
    case True
    then show ?thesis using 2 by (simp add: div_aux1)
  next
    case False
    then have dm: "length xs - m + m = length xs" by simp
    have e: "length (x # xs) + m = length xs + Suc m" by simp
    have "length (stride (Suc m) (x # xs)) = Suc ((length xs - m + m) div Suc m)"
      using 2 by simp
    also have "\<dots> = length xs div Suc m + 1" by (simp only: dm Suc_eq_plus1)
    also have "\<dots> = (length xs + Suc m) div Suc m"
      by (rule div_add_self2[symmetric]) simp
    finally show ?thesis by (simp only: e)
  qed
qed

lemma stride_nth_Suc:
  "i < length (stride (Suc m) xs) \<Longrightarrow> stride (Suc m) xs ! i = xs ! (i * Suc m)"
proof (induction "Suc m" xs arbitrary: i rule: stride.induct)
  case 1 then show ?case by simp
next
  case (2 x xs)
  show ?case
  proof (cases i)
    case 0 then show ?thesis by simp
  next
    case (Suc j)
    with 2 have j: "j < length (stride (Suc m) (drop m xs))" by simp
    have kj: "j * Suc m < length (drop m xs)"
    proof (rule ccontr)
      assume "\<not> j * Suc m < length (drop m xs)"
      then have "length (drop m xs) + m \<le> j * Suc m + m" by simp
      then have "(length (drop m xs) + m) div Suc m \<le> (j * Suc m + m) div Suc m"
        by (rule div_le_mono)
      also have "(j * Suc m + m) div Suc m = j" by (rule div_aux2)
      finally show False using j by (simp add: stride_length_Suc)
    qed
    have "stride (Suc m) (x # xs) ! i = stride (Suc m) (drop m xs) ! j" using Suc by simp
    also have "\<dots> = drop m xs ! (j * Suc m)" using 2 j by simp
    also have "\<dots> = xs ! (m + j * Suc m)" using kj by simp
    also have "\<dots> = (x # xs) ! (i * Suc m)" using Suc by (simp add: ac_simps)
    finally show ?thesis .
  qed
qed

lemma stride_aligned:
  assumes "0 < k" and "length xs = N"
  shows "aligned_decimation N k xs (stride k xs)"
proof -
  from assms(1) obtain m where k: "k = Suc m" by (cases k) auto
  show ?thesis unfolding aligned_decimation_def k
    using assms(2) by (simp add: stride_length_Suc ceil_div_Suc stride_nth_Suc del: of_nat_Suc)
qed

section \<open>Lengths through the stages\<close>

lemma where_finite_length: "length (where_finite d) = length d"
  by (simp add: where_finite_def)

lemma sanitize_length: "length (sanitize raw) = length raw"
  by (simp add: sanitize_def where_finite_length)

lemma cpu_filter_length: "length (cpu_filter L d c fs b ord) = length d"
  unfolding cpu_filter_def Let_def
  by (auto split: sum.splits cutoff.splits list.splits)

lemma gpu_try_length: "gpu_try L d c fs b ord = Inr r \<Longrightarrow> length r = length d"
  unfolding gpu_try_def Let_def
  by (auto split: sum.splits)

lemma butter_filter_depth_length:
  "length (butter_filter_depth n L d c fs b ord) = length d"
  "gpu_butter_filter n L d c fs b ord = Inr r \<Longrightarrow> length r = length d"
proof (induction n arbitrary: d r)
  case 0
  {
    case 1
    show ?case
      by (subst butter_filter_depth.simps)
         (simp add: Let_def cpu_filter_length where_finite_length)
  next
    case 2
    then show ?case
      by (subst (asm) gpu_butter_filter.simps)
         (auto split: if_splits sum.splits dest: gpu_try_length)
  }
next
  case (Suc n)
  {
    case 2
    then show ?case
      by (subst (asm) gpu_butter_filter.simps)
         (auto split: if_splits sum.splits dest: gpu_try_length simp: Suc(1))
  }
  note gpu = this
  {
    case 1
    have g: "length r' = length d'" if "gpu_butter_filter n L d' c fs b ord = Inr r'" for r' d'
      using that by (rule Suc(2))
    show ?case
      by (subst butter_filter_depth.simps)
         (auto simp: Let_def cpu_filter_length where_finite_length split: sum.splits dest: g)
  }
qed

lemma butter_filter_arr_length:
  "length (butter_filter_arr L d c fs b ord) = length d"
  by (simp add: butter_filter_arr_def butter_filter_depth_length(1))

lemma butter_filter_arr_cpu:
  assumes "\<not> GPU_AVAILABLE L"
  shows "butter_filter_arr L data0 cutoff fs btype order =
     (if length data0 = 0 then data0
      else
        let data = (if \<not> list_all isfinite data0 then where_finite data0 else data0)
        in if cutoff_invalid cutoff fs then data
        else if int (length data) < max (order * 6) 9 then data
        else cpu_filter L data cutoff fs btype order)"
  unfolding butter_filter_arr_def
  by (subst butter_filter_depth.simps) (simp add: Let_def assms)

lemma zero_lib_no_gpu: "\<not> GPU_AVAILABLE zero_lib"
  by (simp add: zero_lib_def)

lemma run_filter_length: "length (run_filter L x c fs b ord) = length x"
  by (simp add: run_filter_def butter_filter_arr_length)

lemma filter_stage_length:
  assumes "filter_stage L ft ps pc lo hi fs ord = (ps', pc')"
  shows "length ps' = length ps"
    and "pc = None \<Longrightarrow> pc' = None"
    and "pc = Some c \<Longrightarrow> \<exists>c'. pc' = Some c' \<and> length c' = length c"
  using assms unfolding filter_stage_def
  by (auto simp: run_filter_length split: if_splits)

lemma np_sub_length:
  "np_sub a b = Inr r \<Longrightarrow> length a = length b \<Longrightarrow> length r = length a"
  by (auto simp: np_sub_def)

lemma fit_length:
  "fit_bleaching_correction L s (Some c) = Inr f \<Longrightarrow> length c = length s \<Longrightarrow> length f = length s"
  by (auto simp: fit_bleaching_correction_def zeros_like_def Let_def
           split: if_splits sum.splits prod.splits)

lemma motion_stage_length:
  assumes "case pc of None \<Rightarrow> True | Some c \<Rightarrow> length c = length ps"
  shows "length (motion_stage L ps pc) = length ps"
  using assms unfolding motion_stage_def
  by (auto split: option.splits sum.splits dest!: fit_length dest: np_sub_length)

lemma linspace01_length: "length (linspace01 n) = n"
  by (simp add: linspace01_def)

lemma polyval_length: "polyval xs c = Inr ys \<Longrightarrow> length ys = length xs"
  by (auto simp: polyval_def split: if_splits)

lemma drift_stage_length:
  assumes "drift_stage L mc dc dd = (det, curve)"
  shows "length det = length mc" and "curve = Some d \<Longrightarrow> length d = length mc"
  using assms unfolding drift_stage_def Let_def
  by (auto split: if_splits sum.splits
           dest!: polyval_length simp: linspace01_length dest: np_sub_length)

lemma dff_stage_length: "length (dff_stage d) = length d"
  by (simp add: dff_stage_def zeros_like_def Let_def split: sum.splits)

lemma detect_artifacts_length: "length (detect_artifacts xs th) = length xs"
  by (simp add: detect_artifacts_def Let_def)

lemma downsample_not_all_none: "fa_time fa = Some t \<Longrightarrow> downsample fa k \<noteq> all_none"
  by (simp add: downsample_def all_none_def Let_def)

text \<open>
  C1.  A structurally invalid call (no signal, empty signal, non-positive sampling rate, or
  low cutoff not below high cutoff) returns six \<open>None\<close>s whatever the external routines
  and the remaining arguments are, so no stage contributes to the answer; on every other
  call none of the three checks rejects: with a time axis present the pipeline returns
  arrays.
\<close>

theorem pipeline_rejects_invalid_input:
  "((signal_raw = None \<or> signal_raw = Some [] \<or> fs \<le> 0 \<or> low_cutoff \<ge> high_cutoff) \<longrightarrow>
      process_data_pipeline L time_raw signal_raw control_raw fs low_cutoff high_cutoff
        drift_correction drift_degree downsample_factor filter_type filter_order
        filter_raw_signals = all_none)
   \<and> (\<not> (signal_raw = None \<or> signal_raw = Some [] \<or> fs \<le> 0 \<or> low_cutoff \<ge> high_cutoff) \<longrightarrow>
      time_raw \<noteq> None \<longrightarrow>
      process_data_pipeline L time_raw signal_raw control_raw fs low_cutoff high_cutoff
        drift_correction drift_degree downsample_factor filter_type filter_order
        filter_raw_signals \<noteq> all_none)"
proof (intro conjI impI)
  assume "signal_raw = None \<or> signal_raw = Some [] \<or> fs \<le> 0 \<or> low_cutoff \<ge> high_cutoff"
  then show "process_data_pipeline L time_raw signal_raw control_raw fs low_cutoff high_cutoff
        drift_correction drift_degree downsample_factor filter_type filter_order
        filter_raw_signals = all_none"
    by (auto simp: process_data_pipeline_def split: option.splits)
next
  assume v: "\<not> (signal_raw = None \<or> signal_raw = Some [] \<or> fs \<le> 0 \<or> low_cutoff \<ge> high_cutoff)"
    and t: "time_raw \<noteq> None"
  from v obtain sig where sig: "signal_raw = Some sig" "sig \<noteq> []" by auto
  from t obtain tm where tm: "time_raw = Some tm" by auto
  have "fa_time (pipeline_stages L time_raw sig control_raw fs low_cutoff high_cutoff
          drift_correction drift_degree filter_type filter_order filter_raw_signals) = Some tm"
    by (simp add: pipeline_stages_def Let_def tm split: prod.splits)
  then show "process_data_pipeline L time_raw signal_raw control_raw fs low_cutoff high_cutoff
        drift_correction drift_degree downsample_factor filter_type filter_order
        filter_raw_signals \<noteq> all_none"
    using v sig by (simp add: process_data_pipeline_def downsample_not_all_none)
qed

theorem pipeline_rejects_invalid_input_witness:
  "process_data_pipeline zero_lib (Some [0, 1]) (Some [Fin 1, Fin 2]) None 0 1 5
       True 2 1 ''Bandpass'' 2 True = all_none
   \<and> process_data_pipeline zero_lib (Some [0, 1]) (Some [Fin 1, Fin 2]) None 10 1 4
       False 2 1 ''Bandpass'' 2 True \<noteq> all_none"
  using pipeline_rejects_invalid_input[of "Some [Fin 1, Fin 2]" 0 5 1 zero_lib "Some [0, 1]"
          None True 2 1 "''Bandpass''" 2 True]
        pipeline_rejects_invalid_input[of "Some [Fin 1, Fin 2]" 10 4 1 zero_lib "Some [0, 1]"
          None False 2 1 "''Bandpass''" 2 True]
  by simp

lemma pipeline_stages_lengths:
  assumes sig: "length sig = N"
    and ctl: "case ctl of None \<Rightarrow> True | Some c \<Rightarrow> length c = N"
    and fa_def: "fa = pipeline_stages L tm sig ctl fs lo hi dc dd ft fo fr"
  shows "fa_time fa = tm"
    and "length (fa_dff fa) = N"
    and "length (fa_raw1 fa) = N"
    and "case fa_raw2 fa of None \<Rightarrow> True | Some c \<Rightarrow> length c = N"
    and "case fa_drift fa of None \<Rightarrow> True | Some c \<Rightarrow> length c = N"
    and "length (fa_mask fa) = N"
proof -
  obtain ps pc where f: "filter_stage L ft (sanitize sig) (map_option sanitize ctl) lo hi fs fo = (ps, pc)"
    by (cases "filter_stage L ft (sanitize sig) (map_option sanitize ctl) lo hi fs fo") auto
  obtain det curve where d: "drift_stage L (motion_stage L ps pc) dc dd = (det, curve)"
    by (cases "drift_stage L (motion_stage L ps pc) dc dd") auto
  have ps: "length ps = N"
    using filter_stage_length(1)[OF f] sig by (simp add: sanitize_length)
  have pc: "case pc of None \<Rightarrow> True | Some c \<Rightarrow> length c = N"
  proof (cases ctl)
    case None
    then show ?thesis using filter_stage_length(2)[OF f] by simp
  next
    case (Some c)
    then obtain c' where "pc = Some c'" "length c' = length (sanitize c)"
      using filter_stage_length(3)[OF f, of "sanitize c"] by auto
    then show ?thesis using Some ctl by (simp add: sanitize_length)
  qed
  have mc: "length (motion_stage L ps pc) = N"
    using motion_stage_length[where pc=pc and ps=ps and L=L] pc ps by (auto split: option.splits)
  have det: "length det = N" using drift_stage_length(1)[OF d] mc by simp
  have curve: "case curve of None \<Rightarrow> True | Some c \<Rightarrow> length c = N"
    using drift_stage_length(2)[OF d] mc by (auto split: option.splits)
  have fa: "fa = \<lparr> fa_time = tm, fa_dff = dff_stage det,
           fa_raw1 = (if fr then ps else sanitize sig),
           fa_raw2 = (if fr then pc else map_option sanitize ctl),
           fa_drift = curve,
           fa_mask = (case map_option sanitize ctl of
               Some c \<Rightarrow> detect_artifacts c 3.0
             | None \<Rightarrow> map (\<lambda>_. False) (sanitize sig)) \<rparr>"
    unfolding fa_def pipeline_stages_def Let_def by (simp add: f d)
  show "fa_time fa = tm" by (simp add: fa)
  show "length (fa_dff fa) = N" by (simp add: fa dff_stage_length det)
  show "length (fa_raw1 fa) = N" using ps sig by (simp add: fa sanitize_length)
  show "case fa_raw2 fa of None \<Rightarrow> True | Some c \<Rightarrow> length c = N"
    using pc ctl by (auto simp: fa sanitize_length split: option.splits)
  show "case fa_drift fa of None \<Rightarrow> True | Some c \<Rightarrow> length c = N"
    using curve by (simp add: fa)
  show "length (fa_mask fa) = N"
    using ctl sig by (auto simp: fa sanitize_length detect_artifacts_length split: option.splits)
qed

lemma stride_aligned_opt:
  assumes "0 < k" and "case full of None \<Rightarrow> True | Some c \<Rightarrow> length c = N"
  shows "aligned_opt N k full (map_option (stride k) full)"
  using assms by (auto simp: aligned_opt_def stride_aligned split: option.splits)

text \<open>
  C2.  On arrays of one length \<open>N\<close> and a factor \<open>k \<ge> 1\<close>, a run that does not fail
  returns time, dF/F, raw1 and artifact mask,
  and raw2 and baseline curve when the pipeline has them, each of length \<open>\<lceil>N/k\<rceil>\<close> and
  with element \<open>i\<close> equal to element \<open>i * k\<close> of the corresponding array before decimation.
\<close>

theorem decimation_alignment:
  assumes "length t = N" and "length sig = N"
    and "case ctl of None \<Rightarrow> True | Some c \<Rightarrow> length c = N"
    and "1 \<le> k"
    and "process_data_pipeline L (Some t) (Some sig) ctl fs lo hi dc dd k ft fo fr = out"
    and "out \<noteq> all_none"
  shows "\<exists>time_ds dff_ds raw1_ds raw2_ds drift_ds mask_ds.
           out = (Some time_ds, Some dff_ds, Some raw1_ds, raw2_ds, drift_ds, Some mask_ds)
         \<and> aligned_decimation N (nat k) t time_ds
         \<and> aligned_decimation N (nat k)
              (fa_dff (pipeline_stages L (Some t) sig ctl fs lo hi dc dd ft fo fr)) dff_ds
         \<and> aligned_decimation N (nat k)
              (fa_raw1 (pipeline_stages L (Some t) sig ctl fs lo hi dc dd ft fo fr)) raw1_ds
         \<and> aligned_opt N (nat k)
              (fa_raw2 (pipeline_stages L (Some t) sig ctl fs lo hi dc dd ft fo fr)) raw2_ds
         \<and> aligned_opt N (nat k)
              (fa_drift (pipeline_stages L (Some t) sig ctl fs lo hi dc dd ft fo fr)) drift_ds
         \<and> aligned_decimation N (nat k)
              (fa_mask (pipeline_stages L (Some t) sig ctl fs lo hi dc dd ft fo fr)) mask_ds"
proof -
  let ?fa = "pipeline_stages L (Some t) sig ctl fs lo hi dc dd ft fo fr"
  note len = pipeline_stages_lengths[OF assms(2) assms(3) refl,
      of L "Some t" fs lo hi dc dd ft fo fr]
  have k: "0 < nat k" "nat (max 1 k) = nat k" using assms(4) by auto
  have out: "out = downsample ?fa k"
    using assms(5,6) by (auto simp: process_data_pipeline_def split: if_splits)
  have "out = (Some (stride (nat k) t), Some (stride (nat k) (fa_dff ?fa)),
               Some (stride (nat k) (fa_raw1 ?fa)), map_option (stride (nat k)) (fa_raw2 ?fa),
               map_option (stride (nat k)) (fa_drift ?fa), Some (stride (nat k) (fa_mask ?fa)))"
    unfolding out downsample_def Let_def k(2) len(1) by simp
  moreover have "aligned_decimation N (nat k) t (stride (nat k) t)"
    using k(1) assms(1) by (rule stride_aligned)
  moreover have "aligned_decimation N (nat k) (fa_dff ?fa) (stride (nat k) (fa_dff ?fa))"
    using k(1) len(2) by (rule stride_aligned)
  moreover have "aligned_decimation N (nat k) (fa_raw1 ?fa) (stride (nat k) (fa_raw1 ?fa))"
    using k(1) len(3) by (rule stride_aligned)
  moreover have "aligned_opt N (nat k) (fa_raw2 ?fa) (map_option (stride (nat k)) (fa_raw2 ?fa))"
    using k(1) len(4) by (rule stride_aligned_opt)
  moreover have "aligned_opt N (nat k) (fa_drift ?fa) (map_option (stride (nat k)) (fa_drift ?fa))"
    using k(1) len(5) by (rule stride_aligned_opt)
  moreover have "aligned_decimation N (nat k) (fa_mask ?fa) (stride (nat k) (fa_mask ?fa))"
    using k(1) len(6) by (rule stride_aligned)
  ultimately show ?thesis by blast
qed

lemmas pipeline_eval_defs =
  process_data_pipeline_def pipeline_stages_def downsample_def all_none_def sanitize_def
  filter_stage_def run_filter_def butter_filter_arr_cpu zero_lib_no_gpu cutoff_invalid_def
  cpu_filter_def
  motion_stage_def drift_stage_def dff_stage_def np_percentile_def where_finite_def
  zeros_like_def Let_def

theorem decimation_alignment_witness:
  "process_data_pipeline zero_lib (Some [0, 1, 2, 3, 4])
       (Some [Fin 1, Fin 2, Fin 3, Fin 4, Fin 5]) None 10 1 4 False 2 2 ''Bandpass'' 2 True
     = (Some [0, 2, 4], Some [- 200 / 7, 800 / 7, 1800 / 7], Some [1, 3, 5], None, None,
        Some [False, False, False])
   \<and> aligned_decimation 5 2 [0, 1, 2, 3, 4 :: real] [0, 2, 4]
   \<and> aligned_decimation 5 2
        (fa_raw1 (pipeline_stages zero_lib (Some [0, 1, 2, 3, 4])
           [Fin 1, Fin 2, Fin 3, Fin 4, Fin 5] None 10 1 4 False 2 ''Bandpass'' 2 True))
        [1, 3, 5]"
proof -
  have ev: "process_data_pipeline zero_lib (Some [0, 1, 2, 3, 4])
       (Some [Fin 1, Fin 2, Fin 3, Fin 4, Fin 5]) None 10 1 4 False 2 2 ''Bandpass'' 2 True
     = (Some [0, 2, 4], Some [- 200 / 7, 800 / 7, 1800 / 7], Some [1, 3, 5], None, None,
        Some [False, False, False])"
    by (simp add: pipeline_eval_defs)
  have ne: "(Some [0, 2, 4 :: real], Some [- 200 / 7, 800 / 7, 1800 / 7 :: real],
        Some [1, 3, 5 :: real], None :: real list option, None :: real list option,
        Some [False, False, False]) \<noteq> all_none"
    by (simp add: all_none_def)
  from decimation_alignment[where N = 5, OF _ _ _ _ ev ne]
  show ?thesis using ev by simp
qed

lemma cutoff_invalid_iff:
  "cutoff_invalid cutoff fs \<longleftrightarrow>
     (case cutoff of
        Scalar c \<Rightarrow> \<not> (0 < c \<and> c < fs / 2)
      | Band cs \<Rightarrow> \<exists>c\<in>set cs. \<not> (0 < c \<and> c < fs / 2))"
proof (cases cutoff)
  case (Scalar c)
  then show ?thesis by (auto simp: cutoff_invalid_def)
next
  case (Band cs)
  have "(\<exists>c\<in>set cs. c \<le> 0) \<or> (\<exists>c\<in>set cs. fs / 2 \<le> c) \<longleftrightarrow>
        (\<exists>c\<in>set cs. c \<le> 0 \<or> fs / 2 \<le> c)" by blast
  moreover have "(c \<le> 0 \<or> fs / 2 \<le> c) \<longleftrightarrow> \<not> (0 < c \<and> c < fs / 2)" for c :: real
    by linarith
  ultimately show ?thesis using Band
    by (simp only: cutoff_invalid_def cutoff.case list_ex_iff)
qed

lemma butter_filter_arr_degenerate:
  assumes "d = [] \<or> int (length d) < max (order * 6) 9 \<or> cutoff_invalid cutoff fs"
  shows "butter_filter_arr L d cutoff fs btype order =
           (if list_all isfinite d then d else where_finite d)"
  using assms unfolding butter_filter_arr_def
  by (subst butter_filter_depth.simps) (auto simp: Let_def where_finite_length)

text \<open>
  C7 (as stated) fails: a trace with a non-finite sample that is too short to filter comes
  back with that sample replaced by zero, not unchanged.
\<close>

theorem butter_filter_unchanged_counterexample:
  "int (length [NaN, Fin 1]) < max (2 * 6) 9
   \<and> butter_filter zero_lib (Some [NaN, Fin 1]) (Scalar 1) 100 ''low'' 2 = Some [Fin 0, Fin 1]
   \<and> butter_filter zero_lib (Some [NaN, Fin 1]) (Scalar 1) 100 ''low'' 2 \<noteq> Some [NaN, Fin 1]"
  by (simp add: butter_filter_def butter_filter_arr_cpu zero_lib_no_gpu cutoff_invalid_def
        where_finite_def)

text \<open>
  C7 (amended).  On a degenerate input (empty trace, trace shorter than
  \<open>max (6 * order) 9\<close>, or a cutoff outside \<open>(0, fs/2)\<close>) the filter stage returns the
  trace with every non-finite sample replaced by zero, which is the input itself when all
  its samples are finite.  It never raises: for every trace, whatever the external
  routines do and however few nested calls the interpreter still allows, it returns a
  trace, and that trace has the length of the input, in particular whenever filtering
  runs, on the CPU path as on the accelerated one.
\<close>

theorem butter_filter_degenerate_input:
  "((d = [] \<or> int (length d) < max (order * 6) 9 \<or>
      (case cutoff of
         Scalar c \<Rightarrow> \<not> (0 < c \<and> c < fs / 2)
       | Band cs \<Rightarrow> \<exists>c\<in>set cs. \<not> (0 < c \<and> c < fs / 2))) \<longrightarrow>
       butter_filter L (Some d) cutoff fs btype order =
         Some (if list_all isfinite d then d else where_finite d))
   \<and> (\<exists>r. butter_filter L (Some d) cutoff fs btype order = Some r \<and> length r = length d)
   \<and> butter_filter L None cutoff fs btype order = None"
proof (intro conjI impI)
  assume "d = [] \<or> int (length d) < max (order * 6) 9 \<or>
      (case cutoff of
         Scalar c \<Rightarrow> \<not> (0 < c \<and> c < fs / 2)
       | Band cs \<Rightarrow> \<exists>c\<in>set cs. \<not> (0 < c \<and> c < fs / 2))"
  then have "d = [] \<or> int (length d) < max (order * 6) 9 \<or> cutoff_invalid cutoff fs"
    by (simp only: cutoff_invalid_iff)
  then show "butter_filter L (Some d) cutoff fs btype order =
         Some (if list_all isfinite d then d else where_finite d)"
    by (simp only: butter_filter_def option.case butter_filter_arr_degenerate)
next
  show "\<exists>r. butter_filter L (Some d) cutoff fs btype order = Some r \<and> length r = length d"
    by (simp add: butter_filter_def butter_filter_arr_length)
next
  show "butter_filter L None cutoff fs btype order = None"
    by (simp add: butter_filter_def)
qed

theorem butter_filter_degenerate_input_witness:
  "int (length [NaN, Fin 1]) < max (2 * 6) 9
   \<and> butter_filter zero_lib (Some [NaN, Fin 1]) (Scalar 1) 100 ''low'' 2 = Some [Fin 0, Fin 1]
   \<and> butter_filter zero_lib (Some [Fin 3, Fin 1]) (Scalar 60) 100 ''low'' 2 = Some [Fin 3, Fin 1]
   \<and> (\<exists>r. butter_filter zero_lib (Some (replicate 12 (Fin 1))) (Scalar 1) 100 ''low'' 2 = Some r
          \<and> length r = 12)"
  using butter_filter_degenerate_input[where d = "[NaN, Fin 1]" and order = 2
      and cutoff = "Scalar 1" and fs = 100 and L = zero_lib and btype = "''low''"]
    butter_filter_degenerate_input[where d = "[Fin 3, Fin 1]" and order = 2
      and cutoff = "Scalar 60" and fs = 100 and L = zero_lib and btype = "''low''"]
    butter_filter_degenerate_input[where d = "replicate 12 (Fin 1)" and order = 2
      and cutoff = "Scalar 1" and fs = 100 and L = zero_lib and btype = "''low''"]
  by (simp add: where_finite_def)

section \<open>Properties of the normaliser\<close>

text \<open>
  C3.  The code overwrites \<open>f0\<close> by \<open>max |f0| \<epsilon>\<close> before it normalises, so the numerator
  subtracts \<open>|F0|\<close>, not \<open>F0\<close>: on the detrended trace \<open>[-1, -1]\<close>, whose 10th percentile
  is \<open>-1\<close>, the stage and the pipeline answer \<open>-200\<close> at every sample, where the claimed
  formula \<open>(d - F0) / max |F0| \<epsilon> * 100\<close> gives \<open>0\<close>.
\<close>

theorem dff_negative_baseline:
  "np_percentile [- 1, - 1] 10 = Inr (- 1)
   \<and> dff_stage [- 1, - 1] = [- 200, - 200]
   \<and> map (\<lambda>d. (d - (- 1)) / max \<bar>- 1\<bar> (1 / 10 ^ 9) * 100) [- 1, - 1 :: real] = [0, 0]
   \<and> process_data_pipeline zero_lib (Some [0, 1]) (Some [Fin (- 1), Fin (- 1)]) None
        1 (1 / 1000) 5 False 2 1 ''Bandpass'' 2 True
      = (Some [0, 1], Some [- 200, - 200], Some [- 1, - 1], None, None, Some [False, False])"
  by (simp add: pipeline_eval_defs)

lemma stride_subset: "set (stride k xs) \<subseteq> set xs"
proof (induction k xs rule: stride.induct)
  case (1 k) then show ?case by simp
next
  case (2 k x xs)
  have "set (drop (k - 1) xs) \<subseteq> set xs" by (rule set_drop_subset)
  then show ?case using 2 by auto
qed

lemma stride_nonempty: "xs \<noteq> [] \<Longrightarrow> stride k xs \<noteq> []"
  by (cases xs) simp_all

lemma sort_replicate: "sort (replicate n (x::real)) = replicate n x"
  by (simp add: sorted_sort_id)

lemma np_percentile_const:
  assumes "0 < n" and "0 \<le> q" and "q \<le> 100"
  shows "np_percentile (replicate n c) q = Inr c"
proof -
  let ?pos = "real (n - 1) * q / 100"
  have p0: "0 \<le> ?pos" using assms by simp
  have "?pos \<le> real (n - 1)"
  proof -
    have "real (n - 1) * q \<le> real (n - 1) * 100"
      using assms(3) by (intro mult_left_mono) simp_all
    then show ?thesis by simp
  qed
  then have "\<lfloor>?pos\<rfloor> \<le> int (n - 1)" by (simp add: floor_le_iff)
  then have lo: "nat \<lfloor>?pos\<rfloor> < n" using assms(1) by linarith
  have hi: "min (nat \<lfloor>?pos\<rfloor> + 1) (n - 1) < n" using assms(1) by simp
  show ?thesis
    unfolding np_percentile_def Let_def sort_replicate
    using assms(1) lo hi by simp
qed

lemma dff_stage_zero: "0 < n \<Longrightarrow> dff_stage (replicate n 0) = replicate n (- 100)"
  by (simp add: dff_stage_def np_percentile_const map_replicate_const)

lemma polyval_zero_coeffs:
  assumes "coeffs \<noteq> []" and "\<forall>a\<in>set coeffs. a = 0"
  shows "polyval xs coeffs = Inr (replicate (length xs) 0)"
proof -
  have "foldr (\<lambda>ck acc. ck + x * acc) coeffs 0 = 0" for x :: real
    using assms(2) by (induction coeffs) simp_all
  then show ?thesis using assms(1)
    by (simp add: polyval_def map_replicate_const)
qed

lemma np_sub_zero: "np_sub (replicate n 0) (replicate n 0) = Inr (replicate n 0)"
  by (simp add: np_sub_def)

lemma drift_stage_zero:
  assumes "dc \<longrightarrow> (\<exists>coeffs. polyfit L (linspace01 n) (replicate n 0) dd = Inr coeffs
              \<and> coeffs \<noteq> [] \<and> (\<forall>a\<in>set coeffs. a = 0))"
  shows "fst (drift_stage L (replicate n 0) dc dd) = replicate n 0"
  using assms
  by (auto simp: drift_stage_def Let_def polyval_zero_coeffs linspace01_length np_sub_zero)

lemma sanitize_finite: "sanitize (map Fin xs) = xs"
proof -
  have "list_all isfinite (map Fin xs)" by (induction xs) simp_all
  then show ?thesis by (simp add: sanitize_def comp_def)
qed

text \<open>
  C4.  When the band-pass stage removes a constant trace exactly (its response to a
  constant is the zero trace) and the drift fit of the zero trace is the zero polynomial,
  the detrended trace is zero, \<open>f0\<close> becomes \<open>\<epsilon>\<close>, and every dF/F sample returned is
  \<open>(0 - \<epsilon>) / \<epsilon> * 100 = -100\<close>, not \<open>0\<close>.
\<close>

theorem constant_trace_dff:
  assumes "0 < n" and "0 < lo" and "lo < hi" and "hi < fs / 2"
    and "max (order * 6) 9 \<le> int n"
    and "run_filter L (replicate n c) (Band [lo, hi]) fs ''bandpass'' order = replicate n 0"
    and "dc \<longrightarrow> (\<exists>coeffs. polyfit L (linspace01 n) (replicate n 0) dd = Inr coeffs
              \<and> coeffs \<noteq> [] \<and> (\<forall>a\<in>set coeffs. a = 0))"
  shows "\<exists>time_ds dff_ds raw1_ds raw2_ds drift_ds mask_ds.
           process_data_pipeline L (Some t) (Some (replicate n (Fin c))) None fs lo hi
             dc dd k ''Bandpass'' order fr
           = (time_ds, Some dff_ds, raw1_ds, raw2_ds, drift_ds, mask_ds)
         \<and> dff_ds \<noteq> [] \<and> (\<forall>x\<in>set dff_ds. x = - 100)"
proof -
  let ?k = "nat (max 1 k)"
  have san: "sanitize (replicate n (Fin c)) = replicate n c"
    using sanitize_finite[of "replicate n c"] by simp
  have fs: "0 < fs" using assms(2,3,4) by simp
  obtain det curve where d: "drift_stage L (replicate n 0) dc dd = (det, curve)"
    by (cases "drift_stage L (replicate n 0) dc dd") auto
  have det: "det = replicate n 0" using drift_stage_zero[OF assms(7)] d by simp
  have sel: "fa_dff (pipeline_stages L (Some t) (replicate n (Fin c)) None fs lo hi dc dd
               ''Bandpass'' order fr) = replicate n (- 100)"
    unfolding pipeline_stages_def Let_def
    by (simp add: san filter_stage_def assms(6) motion_stage_def d det dff_stage_zero[OF assms(1)])
  have tm: "fa_time (pipeline_stages L (Some t) (replicate n (Fin c)) None fs lo hi dc dd
               ''Bandpass'' order fr) = Some t"
    unfolding pipeline_stages_def Let_def by (simp split: prod.splits)
  let ?dff = "stride ?k (replicate n (- 100 :: real))"
  have ne: "?dff \<noteq> []" using assms(1) by (intro stride_nonempty) simp
  have all: "\<forall>x\<in>set ?dff. x = - 100" using stride_subset[of ?k "replicate n (- 100 :: real)"] by auto
  have "\<exists>time_ds raw1_ds raw2_ds drift_ds mask_ds.
           process_data_pipeline L (Some t) (Some (replicate n (Fin c))) None fs lo hi
             dc dd k ''Bandpass'' order fr
           = (time_ds, Some ?dff, raw1_ds, raw2_ds, drift_ds, mask_ds)"
    using assms(1,3) fs
    by (simp add: process_data_pipeline_def downsample_def Let_def tm sel)
  then show ?thesis using ne all by blast
qed

theorem constant_trace_dff_witness:
  "run_filter zero_lib (replicate 12 1) (Band [1, 5]) 100 ''bandpass'' 2 = replicate 12 0
   \<and> (\<exists>time_ds dff_ds raw1_ds raw2_ds drift_ds mask_ds.
           process_data_pipeline zero_lib (Some [0, 1, 2, 3, 4, 5, 6, 7, 8, 9, 10, 11])
             (Some (replicate 12 (Fin 1))) None 100 1 5 True 2 1 ''Bandpass'' 2 True
           = (time_ds, Some dff_ds, raw1_ds, raw2_ds, drift_ds, mask_ds)
         \<and> dff_ds \<noteq> [] \<and> hd dff_ds = - 100)"
proof -
  have f: "run_filter zero_lib (replicate 12 1) (Band [1, 5]) 100 ''bandpass'' 2 = replicate 12 0"
    by (simp add: run_filter_def butter_filter_arr_cpu zero_lib_no_gpu cutoff_invalid_def
          cpu_filter_def zero_lib_def np_min_def py_int_def Let_def list_all_iff map_replicate_const)
  have p: "True \<longrightarrow> (\<exists>coeffs. polyfit zero_lib (linspace01 12) (replicate 12 0) 2 = Inr coeffs
              \<and> coeffs \<noteq> [] \<and> (\<forall>a\<in>set coeffs. a = 0))"
    by (simp add: zero_lib_def)
  from constant_trace_dff[of 12 1 5 100 2 zero_lib 1 True 2
      "[0, 1, 2, 3, 4, 5, 6, 7, 8, 9, 10, 11]" 1 True, OF _ _ _ _ _ f p]
  obtain time_ds dff_ds raw1_ds raw2_ds drift_ds mask_ds where
    r: "process_data_pipeline zero_lib (Some [0, 1, 2, 3, 4, 5, 6, 7, 8, 9, 10, 11])
             (Some (replicate 12 (Fin 1))) None 100 1 5 True 2 1 ''Bandpass'' 2 True
           = (time_ds, Some dff_ds, raw1_ds, raw2_ds, drift_ds, mask_ds)"
      and ne: "dff_ds \<noteq> []" and all: "\<forall>x\<in>set dff_ds. x = - 100"
    by auto
  from ne all have "hd dff_ds = - 100" by (cases dff_ds) auto
  with f r ne show ?thesis by blast
qed

section \<open>Properties of the event metrics engine\<close>







lemma np_any_nonempty: "np_any idx \<Longrightarrow> idx \<noteq> []"
  by (auto simp: np_any_def)


























section \<open>Properties of the PSTH builder\<close>

lemma np_interp_length: "np_interp xs xp fp = Inr row \<Longrightarrow> length row = length xs"
  by (auto simp: np_interp_def split: if_splits)

lemma event_row_length:
  "event_row tm sig pre post centers e = Some (Inr row) \<Longrightarrow> length row = length centers"
  by (auto simp: event_row_def Let_def split: if_splits dest: np_interp_length)

lemma psth_rows_concat:
  "psth_rows tm sig pre post centers es = Inr rows \<Longrightarrow>
     rows = concat (map (\<lambda>e. case event_row tm sig pre post centers e of
                              Some (Inr row) \<Rightarrow> [row] | _ \<Rightarrow> []) es)"
proof (induction es arbitrary: rows)
  case Nil
  then show ?case by simp
next
  case (Cons e es)
  show ?case
  proof (cases "event_row tm sig pre post centers e")
    case None
    then show ?thesis using Cons by simp
  next
    case (Some q)
    show ?thesis
    proof (cases q)
      case (Inl err)
      then show ?thesis using Cons.prems Some by simp
    next
      case (Inr row)
      then obtain rest where rest: "psth_rows tm sig pre post centers es = Inr rest"
        and rows: "rows = row # rest"
        using Cons.prems Some by (auto split: sum.splits)
      from Cons.IH[OF rest] rows Some Inr show ?thesis by simp
    qed
  qed
qed

lemma psth_valid_iff:
  "(e \<ge> lo + pre \<and> e \<le> hi - post) \<longleftrightarrow> (lo \<le> e - pre \<and> e + post \<le> (hi::real))"
  by linarith

lemma generate_psth_result:
  assumes "generate_psth pre post bin (Some \<lparr>d_time = Some tm, d_dff = Some sig, d_events = Times evs\<rparr>)
             = PSTH r"
  shows "psth_rows tm sig pre post (time_centers r)
           (filter (\<lambda>e. Min (set tm) \<le> e - pre \<and> e + post \<le> Max (set tm)) evs)
         = Inr (psth_matrix r)
       \<and> valid_events r = length (psth_matrix r) \<and> psth_matrix r \<noteq> []"
proof -
  let ?valid = "\<lambda>e. e \<ge> Min (set tm) + pre \<and> e \<le> Max (set tm) - post"
  have f: "filter ?valid evs = filter (\<lambda>e. Min (set tm) \<le> e - pre \<and> e + post \<le> Max (set tm)) evs"
    by (rule filter_cong[OF refl]) (simp only: psth_valid_iff)
  from assms show ?thesis
    unfolding generate_psth_def Let_def f psth_data.simps option.case events_entry.case
    by (auto split: if_splits sum.splits)
qed

lemma generate_psth_none_in_range:
  assumes "\<forall>e\<in>set evs. e - pre < Min (set tm) \<or> Max (set tm) < e + post"
  shows "generate_psth pre post bin (Some \<lparr>d_time = Some tm, d_dff = Some sig, d_events = Times evs\<rparr>)
           \<in> {Error_parameters, Info_no_events, Error_signal, Info_none_in_range}"
proof -
  let ?valid = "\<lambda>e. e \<ge> Min (set tm) + pre \<and> e \<le> Max (set tm) - post"
  have "\<not> list_ex ?valid evs"
    unfolding list_ex_iff using assms by (auto simp: psth_valid_iff)
  then show ?thesis
    unfolding generate_psth_def Let_def psth_data.simps option.case events_entry.case
    by simp
qed


lemma generate_psth_filter_invariant:
  assumes "\<exists>e\<in>set evs. Min (set tm) \<le> e - pre \<and> e + post \<le> Max (set tm)"
  shows "generate_psth pre post bin (Some \<lparr>d_time = Some tm, d_dff = Some sig, d_events = Times evs\<rparr>)
       = generate_psth pre post bin (Some \<lparr>d_time = Some tm, d_dff = Some sig,
           d_events = Times (filter (\<lambda>e. Min (set tm) \<le> e - pre \<and> e + post \<le> Max (set tm)) evs)\<rparr>)"
proof -
  let ?valid = "\<lambda>e. e \<ge> Min (set tm) + pre \<and> e \<le> Max (set tm) - post"
  let ?in = "\<lambda>e. Min (set tm) \<le> e - pre \<and> e + post \<le> Max (set tm)"
  have v: "?valid = ?in" by (intro ext) (simp only: psth_valid_iff)
  have ex: "list_ex ?in evs" using assms by (simp add: list_ex_iff)
  have ne: "evs \<noteq> []" "filter ?in evs \<noteq> []" using assms by (auto simp: filter_empty_conv)
  have ex': "list_ex ?in (filter ?in evs)" using assms by (auto simp: list_ex_iff)
  have ff: "filter ?in (filter ?in evs) = filter ?in evs" by simp
  show ?thesis
    unfolding generate_psth_def Let_def psth_data.simps option.case events_entry.case v
    using ex ex' ne by (simp only: ff length_0_conv if_False if_True simp_thms)
qed

text \<open>
  C8.  A PSTH is built only from the events whose whole window lies inside the time range
  of the trace: its rows are the interpolated rows of those events, each over all bins,
  and dropping the other events from the input changes nothing.  When no event has its
  window inside the range the builder answers with a message box (the information that
  no event is within the valid time range, when parameters and data are in order), never
  with a PSTH; and a PSTH always rests on at least one event.
\<close>

theorem psth_excludes_partial_windows:
  "(\<forall>r. generate_psth pre post bin
           (Some \<lparr>d_time = Some tm, d_dff = Some sig, d_events = Times evs\<rparr>) = PSTH r \<longrightarrow>
        psth_matrix r =
          concat (map (\<lambda>e. case event_row tm sig pre post (time_centers r) e of
                              Some (Inr row) \<Rightarrow> [row] | _ \<Rightarrow> [])
                    (filter (\<lambda>e. Min (set tm) \<le> e - pre \<and> e + post \<le> Max (set tm)) evs))
      \<and> (\<forall>row\<in>set (psth_matrix r). length row = length (time_centers r))
      \<and> valid_events r = length (psth_matrix r) \<and> 0 < valid_events r)
   \<and> ((\<exists>e\<in>set evs. Min (set tm) \<le> e - pre \<and> e + post \<le> Max (set tm)) \<longrightarrow>
        generate_psth pre post bin
          (Some \<lparr>d_time = Some tm, d_dff = Some sig, d_events = Times evs\<rparr>)
        = generate_psth pre post bin
          (Some \<lparr>d_time = Some tm, d_dff = Some sig,
             d_events = Times (filter (\<lambda>e. Min (set tm) \<le> e - pre \<and> e + post \<le> Max (set tm)) evs)\<rparr>))
   \<and> ((\<forall>e\<in>set evs. e - pre < Min (set tm) \<or> Max (set tm) < e + post) \<longrightarrow>
        generate_psth pre post bin
          (Some \<lparr>d_time = Some tm, d_dff = Some sig, d_events = Times evs\<rparr>)
        \<in> {Error_parameters, Info_no_events, Error_signal, Info_none_in_range}
      \<and> (0 < pre \<and> 0 < post \<and> 0 < bin \<and> evs \<noteq> [] \<and> tm \<noteq> [] \<and> sig \<noteq> [] \<longrightarrow>
          generate_psth pre post bin
            (Some \<lparr>d_time = Some tm, d_dff = Some sig, d_events = Times evs\<rparr>)
          = Info_none_in_range))"
proof (intro conjI allI impI)
  fix r
  assume r: "generate_psth pre post bin
           (Some \<lparr>d_time = Some tm, d_dff = Some sig, d_events = Times evs\<rparr>) = PSTH r"
  note g = generate_psth_result[OF r]
  from g show "psth_matrix r =
          concat (map (\<lambda>e. case event_row tm sig pre post (time_centers r) e of
                              Some (Inr row) \<Rightarrow> [row] | _ \<Rightarrow> [])
                    (filter (\<lambda>e. Min (set tm) \<le> e - pre \<and> e + post \<le> Max (set tm)) evs))"
    using psth_rows_concat by blast
  then show "\<forall>row\<in>set (psth_matrix r). length row = length (time_centers r)"
    by (auto split: option.splits sum.splits dest: event_row_length[OF sym])
  from g show "valid_events r = length (psth_matrix r)" by blast
  from g show "0 < valid_events r" by simp
next
  assume "\<exists>e\<in>set evs. Min (set tm) \<le> e - pre \<and> e + post \<le> Max (set tm)"
  then show "generate_psth pre post bin
          (Some \<lparr>d_time = Some tm, d_dff = Some sig, d_events = Times evs\<rparr>)
        = generate_psth pre post bin
          (Some \<lparr>d_time = Some tm, d_dff = Some sig,
             d_events = Times (filter (\<lambda>e. Min (set tm) \<le> e - pre \<and> e + post \<le> Max (set tm)) evs)\<rparr>)"
    by (rule generate_psth_filter_invariant)
next
  assume a: "\<forall>e\<in>set evs. e - pre < Min (set tm) \<or> Max (set tm) < e + post"
  then show "generate_psth pre post bin
          (Some \<lparr>d_time = Some tm, d_dff = Some sig, d_events = Times evs\<rparr>)
        \<in> {Error_parameters, Info_no_events, Error_signal, Info_none_in_range}"
    by (rule generate_psth_none_in_range)
next
  assume a: "\<forall>e\<in>set evs. e - pre < Min (set tm) \<or> Max (set tm) < e + post"
    and b: "0 < pre \<and> 0 < post \<and> 0 < bin \<and> evs \<noteq> [] \<and> tm \<noteq> [] \<and> sig \<noteq> []"
  let ?valid = "\<lambda>e. e \<ge> Min (set tm) + pre \<and> e \<le> Max (set tm) - post"
  have "\<not> list_ex ?valid evs"
    unfolding list_ex_iff using a by (auto simp: psth_valid_iff)
  then show "generate_psth pre post bin
            (Some \<lparr>d_time = Some tm, d_dff = Some sig, d_events = Times evs\<rparr>)
          = Info_none_in_range"
    unfolding generate_psth_def Let_def psth_data.simps option.case events_entry.case
    using b by simp
qed

theorem psth_excludes_partial_windows_witness:
  "generate_psth 2 2 1
     (Some \<lparr>d_time = Some [0, 1, 2, 3, 4, 5, 6, 7, 8, 9, 10],
            d_dff = Some [0, 0, 0, 0, 0, 5, 0, 0, 0, 0, 0],
            d_events = Times [5, 19 / 2, 1 / 2]\<rparr>)
   = generate_psth 2 2 1
     (Some \<lparr>d_time = Some [0, 1, 2, 3, 4, 5, 6, 7, 8, 9, 10],
            d_dff = Some [0, 0, 0, 0, 0, 5, 0, 0, 0, 0, 0],
            d_events = Times [5]\<rparr>)
   \<and> generate_psth 2 2 1
     (Some \<lparr>d_time = Some [0, 1, 2, 3, 4, 5, 6, 7, 8, 9, 10],
            d_dff = Some [0, 0, 0, 0, 0, 5, 0, 0, 0, 0, 0],
            d_events = Times [19 / 2, 1 / 2]\<rparr>)
   = Info_none_in_range"
  using psth_excludes_partial_windows[of 2 2 1 "[0, 1, 2, 3, 4, 5, 6, 7, 8, 9, 10]"
          "[0, 0, 0, 0, 0, 5, 0, 0, 0, 0, 0]" "[5, 19 / 2, 1 / 2]"]
        psth_excludes_partial_windows[of 2 2 1 "[0, 1, 2, 3, 4, 5, 6, 7, 8, 9, 10]"
          "[0, 0, 0, 0, 0, 5, 0, 0, 0, 0, 0]" "[19 / 2, 1 / 2]"]
  by simp

end
